theory Spec2Isabelle
  imports
    Complex_Main
    "HOL-Library.Sublist"
    "HOL-Library.Multiset"
begin

section \<open>The expense tracker: category suggestion and the expenses table\<close>

text \<open>
  The repository holds two programs over one SQLite file \<^verbatim>\<open>expenses.db\<close>:
  \<^verbatim>\<open>expnctrackerv2.py\<close> (a Tk window) and \<^verbatim>\<open>expnctrackerv3.py\<close> (a Streamlit page).
  Names that occur in both carry the suffix \<open>_v2\<close> or \<open>_v3\<close>; everything else keeps the
  name it has in the source.
\<close>

subsection \<open>Text\<close>

text \<open>
  Descriptions are ASCII text, one \<^typ>\<open>char\<close> per character. \<^verbatim>\<open>str.lower()\<close> then
  replaces the letters \<^verbatim>\<open>A\<close> to \<^verbatim>\<open>Z\<close> and changes nothing else; Python's case mapping
  of characters outside ASCII is not modelled.
\<close>

definition lower_char :: "char \<Rightarrow> char" where
  "lower_char c =
     (case map_of (zip ''ABCDEFGHIJKLMNOPQRSTUVWXYZ'' ''abcdefghijklmnopqrstuvwxyz'') c of
        None \<Rightarrow> c
      | Some d \<Rightarrow> d)"

definition lower :: "string \<Rightarrow> string" where
  "lower s = map lower_char s"

text \<open>
  Python's \<^verbatim>\<open>word in desc\<close> on two strings: \<open>word\<close> occurs in \<open>desc\<close> as a contiguous
  run of characters, at some position.
\<close>

fun py_in :: "string \<Rightarrow> string \<Rightarrow> bool" where
  "py_in word [] = (word = [])"
| "py_in word (c # cs) = (prefix word (c # cs) \<or> py_in word cs)"

text \<open>\<^verbatim>\<open>any(word in desc for word in words)\<close>\<close>

definition any_in :: "string list \<Rightarrow> string \<Rightarrow> bool" where
  "any_in words desc = list_ex (\<lambda>word. py_in word desc) words"

subsection \<open>\<^verbatim>\<open>suggest_category\<close>\<close>

text \<open>\<^verbatim>\<open>expnctrackerv2.py\<close>, lines 28 to 41.\<close>

definition suggest_category_v2 :: "string \<Rightarrow> string" where
  "suggest_category_v2 description =
     (let desc = lower description in
      if any_in [''pizza'', ''food'', ''coffee'', ''lunch'', ''restaurant''] desc then ''Food''
      else if any_in [''uber'', ''bus'', ''train'', ''petrol'', ''cab''] desc then ''Travel''
      else if any_in [''rent'', ''bill'', ''recharge'', ''electricity''] desc then ''Bills''
      else if any_in [''doctor'', ''pharmacy'', ''medicine'', ''hospital''] desc then ''Health''
      else if any_in [''amazon'', ''clothes'', ''mall'', ''shopping''] desc then ''Shopping''
      else ''Miscellaneous'')"

text \<open>\<^verbatim>\<open>expnctrackerv3.py\<close>, lines 26 to 39.\<close>

definition suggest_category_v3 :: "string \<Rightarrow> string" where
  "suggest_category_v3 description =
     (let desc = lower description in
      if any_in [''pizza'', ''food'', ''coffee'', ''restaurant'', ''snack''] desc then ''Food''
      else if any_in [''uber'', ''bus'', ''train'', ''petrol'', ''cab''] desc then ''Travel''
      else if any_in [''bill'', ''recharge'', ''rent'', ''electricity''] desc then ''Bills''
      else if any_in [''doctor'', ''medicine'', ''hospital'', ''pharmacy''] desc then ''Health''
      else if any_in [''amazon'', ''clothes'', ''mall'', ''shopping''] desc then ''Shopping''
      else ''Miscellaneous'')"

text \<open>
  The keyword table each program's chain of tests amounts to, in the order of the tests:
  a label with the words tested for it. These restate the chains as data, for the
  statements below; the programs themselves hold no such table.
\<close>

definition keyword_groups_v2 :: "(string \<times> string list) list" where
  "keyword_groups_v2 =
     [(''Food'', [''pizza'', ''food'', ''coffee'', ''lunch'', ''restaurant'']),
      (''Travel'', [''uber'', ''bus'', ''train'', ''petrol'', ''cab'']),
      (''Bills'', [''rent'', ''bill'', ''recharge'', ''electricity'']),
      (''Health'', [''doctor'', ''pharmacy'', ''medicine'', ''hospital'']),
      (''Shopping'', [''amazon'', ''clothes'', ''mall'', ''shopping''])]"

definition keyword_groups_v3 :: "(string \<times> string list) list" where
  "keyword_groups_v3 =
     [(''Food'', [''pizza'', ''food'', ''coffee'', ''restaurant'', ''snack'']),
      (''Travel'', [''uber'', ''bus'', ''train'', ''petrol'', ''cab'']),
      (''Bills'', [''bill'', ''recharge'', ''rent'', ''electricity'']),
      (''Health'', [''doctor'', ''medicine'', ''hospital'', ''pharmacy'']),
      (''Shopping'', [''amazon'', ''clothes'', ''mall'', ''shopping''])]"

text \<open>
  The Food keywords of the specification's table, in its words:
  pizza, food, coffee, lunch, restaurant, snack.
\<close>

definition spec_food_keywords :: "string list" where
  "spec_food_keywords = [''pizza'', ''food'', ''coffee'', ''lunch'', ''restaurant'', ''snack'']"

text \<open>The whole keyword table of the specification, in its words and its order.\<close>

definition spec_keyword_groups :: "(string \<times> string list) list" where
  "spec_keyword_groups =
     [(''Food'', [''pizza'', ''food'', ''coffee'', ''lunch'', ''restaurant'', ''snack'']),
      (''Travel'', [''uber'', ''bus'', ''train'', ''petrol'', ''cab'']),
      (''Bills'', [''rent'', ''bill'', ''recharge'', ''electricity'']),
      (''Health'', [''doctor'', ''pharmacy'', ''medicine'', ''hospital'']),
      (''Shopping'', [''amazon'', ''clothes'', ''mall'', ''shopping''])]"

text \<open>The first label of a table whose words match, and the fallback when none does.\<close>

fun first_match :: "(string \<times> string list) list \<Rightarrow> string \<Rightarrow> string" where
  "first_match [] desc = ''Miscellaneous''"
| "first_match ((label, ws) # groups) desc =
     (if any_in ws desc then label else first_match groups desc)"

section \<open>The expenses table\<close>

text \<open>
  Both programs create the same table in \<^verbatim>\<open>expenses.db\<close>:
  \<^verbatim>\<open>id INTEGER PRIMARY KEY AUTOINCREMENT, date TEXT, description TEXT, amount REAL,
  category TEXT\<close>.
  A row is a record with the table's columns (\<open>expense_id\<close> is the column \<open>id\<close>, the
  name \<^verbatim>\<open>delete_expense\<close> gives it). An amount is the real number that the stored
  binary floating-point value denotes; infinities and NaN are not modelled. No
  arithmetic is done on amounts here: where a program adds them, the addition is a
  parameter.
\<close>

record expense =
  expense_id :: int
  date :: string
  description :: string
  amount :: real
  category :: string

text \<open>
  The database: the rows of \<open>expenses\<close> in the order SQLite keeps them (by rowid, which
  for this table is the order of insertion), and the entry SQLite keeps for the table
  in \<^verbatim>\<open>sqlite_sequence\<close>, the largest id the table has ever held (0 before the first
  insert).
\<close>

record db =
  rows :: "expense list"
  sqlite_sequence :: int

definition init_db :: db where
  "init_db = \<lparr>rows = [], sqlite_sequence = 0\<rparr>"

datatype db_error = SQLITE_FULL

definition max_rowid :: int where
  "max_rowid = 9223372036854775807"

definition largest_rowid :: "db \<Rightarrow> int" where
  "largest_rowid s = fold max (map expense_id (rows s)) (sqlite_sequence s)"

text \<open>
  \<^verbatim>\<open>INSERT INTO expenses (date, description, amount, category) VALUES (?,?,?,?)\<close>
  and the commit. With \<^verbatim>\<open>AUTOINCREMENT\<close> the new id is one more than the largest id
  the table has ever held; once that is the largest 64-bit integer the statement fails
  with \<^verbatim>\<open>SQLITE_FULL\<close> and Python raises.
\<close>

definition sql_insert :: "string \<Rightarrow> string \<Rightarrow> real \<Rightarrow> string \<Rightarrow> db \<Rightarrow> db_error + db" where
  "sql_insert d desc amt cat s =
     (let m = largest_rowid s in
      if max_rowid \<le> m then Inl SQLITE_FULL
      else Inr \<lparr>rows = rows s @
                   [\<lparr>expense_id = m + 1, date = d, description = desc, amount = amt,
                     category = cat\<rparr>],
                sqlite_sequence = m + 1\<rparr>)"

text \<open>\<^verbatim>\<open>DELETE FROM expenses WHERE id=?\<close> and the commit.\<close>

definition sql_delete :: "int \<Rightarrow> db \<Rightarrow> db" where
  "sql_delete i s = s\<lparr>rows := filter (\<lambda>r. expense_id r \<noteq> i) (rows s)\<rparr>"

text \<open>\<^verbatim>\<open>SELECT * FROM expenses ORDER BY id DESC\<close>\<close>

definition select_all_desc :: "db \<Rightarrow> expense list" where
  "select_all_desc s = rev (sort_key expense_id (rows s))"

text \<open>
  \<^verbatim>\<open>SELECT SUM(amount) FROM expenses\<close>: \<^verbatim>\<open>NULL\<close> (Python's \<^verbatim>\<open>None\<close>) on no rows.
  On rows, \<open>sum_agg\<close> stands for SQLite's \<^verbatim>\<open>SUM\<close> over the column: it adds the
  values in binary floating point, in an order and with a rounding of its own, and it
  too can give \<^verbatim>\<open>NULL\<close>.
\<close>

definition select_sum :: "(real list \<Rightarrow> real option) \<Rightarrow> db \<Rightarrow> real option" where
  "select_sum sum_agg s = (if rows s = [] then None else sum_agg (map amount (rows s)))"

text \<open>What a program shows the user: the kind of box and its text.\<close>

datatype notice = Success string | Info string | Warning string | Error string

subsection \<open>\<^verbatim>\<open>expnctrackerv3.py\<close>\<close>

text \<open>
  \<^verbatim>\<open>add_expense(desc, amt, cat)\<close>, lines 42 to 46. \<open>today\<close> is what
  \<^verbatim>\<open>datetime.now().strftime("%Y-%m-%d")\<close> returns at the call.
\<close>

definition add_expense_v3 :: "string \<Rightarrow> string \<Rightarrow> real \<Rightarrow> string \<Rightarrow> db \<Rightarrow> db_error + db" where
  "add_expense_v3 today desc amt cat s = sql_insert today desc amt cat s"

text \<open>\<^verbatim>\<open>delete_expense(expense_id)\<close>, lines 49 to 51. It returns nothing.\<close>

definition delete_expense_v3 :: "int \<Rightarrow> db \<Rightarrow> db" where
  "delete_expense_v3 i s = sql_delete i s"

text \<open>\<^verbatim>\<open>get_all_expenses()\<close>, lines 54 to 56: the data frame, row by row.\<close>

definition get_all_expenses :: "db \<Rightarrow> expense list" where
  "get_all_expenses s = select_all_desc s"

text \<open>
  The ``Add Expense'' tab, lines 73 to 83: the default of the category field, and the
  button. \<open>amt\<close> is the value of the number field, which the field keeps at 0 or above.
\<close>

definition suggested :: "string \<Rightarrow> string" where
  "suggested desc = (if desc \<noteq> [] then suggest_category_v3 desc else [])"

definition add_expense_button ::
  "string \<Rightarrow> string \<Rightarrow> real \<Rightarrow> string \<Rightarrow> db \<Rightarrow> db_error + notice \<times> db" where
  "add_expense_button today desc amt cat s =
     (if desc \<noteq> [] \<and> amt > 0 then
        (case add_expense_v3 today desc amt cat s of
           Inl e \<Rightarrow> Inl e
         | Inr s' \<Rightarrow> Inr (Success ''Expense added successfully!'', s'))
      else Inr (Warning ''Enter valid description and amount.'', s))"

subsection \<open>\<^verbatim>\<open>expnctrackerv2.py\<close>\<close>

text \<open>The three entry fields of the window.\<close>

record form =
  desc_entry :: string
  amt_entry :: string
  cat_entry :: string

text \<open>
  \<^verbatim>\<open>add_expense()\<close>, lines 47 to 70, up to the call of \<^verbatim>\<open>refresh_table\<close>. \<open>float\<close>
  stands for Python's built-in \<^verbatim>\<open>float\<close> on a text, \<open>None\<close> where it raises
  \<^verbatim>\<open>ValueError\<close>. The result is the box shown, if any, the fields and the database.
\<close>

definition add_expense_v2 ::
  "(string \<Rightarrow> real option) \<Rightarrow> string \<Rightarrow> form \<Rightarrow> db \<Rightarrow> db_error + notice option \<times> form \<times> db" where
  "add_expense_v2 float today f s =
     (let desc = desc_entry f; amt = amt_entry f; cat = cat_entry f in
      if desc = [] \<or> amt = [] then
        Inr (Some (Warning ''Description and amount are required.''), f, s)
      else
        (case float amt of
           None \<Rightarrow> Inr (Some (Error ''Amount must be a number.''), f, s)
         | Some a \<Rightarrow>
             (case sql_insert today desc a cat s of
                Inl e \<Rightarrow> Inl e
              | Inr s' \<Rightarrow>
                  Inr (None,
                       \<lparr>desc_entry = [], amt_entry = [], cat_entry = suggest_category_v2 desc\<rparr>,
                       s'))))"

text \<open>
  \<^verbatim>\<open>delete_expense()\<close>, lines 76 to 85, up to the call of \<^verbatim>\<open>refresh_table\<close>.
  \<open>selected\<close> is the row of the list that has the focus, \<open>None\<close> when no row has it.
\<close>

definition delete_expense_v2 :: "expense option \<Rightarrow> db \<Rightarrow> notice option \<times> db" where
  "delete_expense_v2 selected s =
     (case selected of
        None \<Rightarrow> (Some (Warning ''Select an expense to delete.''), s)
      | Some item \<Rightarrow> (None, sql_delete (expense_id item) s))"

text \<open>
  \<^verbatim>\<open>update_summary()\<close>, lines 130 to 133: the number the label shows,
  \<^verbatim>\<open>total if total else 0\<close>.
\<close>

definition update_summary :: "(real list \<Rightarrow> real option) \<Rightarrow> db \<Rightarrow> real" where
  "update_summary sum_agg s =
     (case select_sum sum_agg s of
        None \<Rightarrow> 0
      | Some total' \<Rightarrow> if total' \<noteq> 0 then total' else 0)"

text \<open>\<^verbatim>\<open>refresh_table()\<close>, lines 91 to 97: the rows of the list, top down, and the label.\<close>

definition refresh_table :: "(real list \<Rightarrow> real option) \<Rightarrow> db \<Rightarrow> expense list \<times> real" where
  "refresh_table sum_agg s = (select_all_desc s, update_summary sum_agg s)"

text \<open>
  Python's \<^verbatim>\<open>float\<close> restricted to plain decimal numerals: an optional sign, digits, and
  at most one point with a digit before or after it. (\<^verbatim>\<open>float\<close> itself reads more:
  exponents, blanks around the numeral, underscores between digits.)
\<close>

definition is_digit :: "char \<Rightarrow> bool" where
  "is_digit c = (c \<in> set ''0123456789'')"

definition digits_value :: "string \<Rightarrow> nat" where
  "digits_value ds = foldl (\<lambda>n c. 10 * n + (of_char c - 48)) 0 ds"

definition unsigned_decimal :: "string \<Rightarrow> real option" where
  "unsigned_decimal t =
     (let ip = takeWhile is_digit t; rest = dropWhile is_digit t in
      case rest of
        [] \<Rightarrow> if ip = [] then None else Some (real (digits_value ip))
      | c # fp \<Rightarrow>
          if c = CHR ''.'' \<and> list_all is_digit fp \<and> (ip \<noteq> [] \<or> fp \<noteq> [])
          then Some (real (digits_value ip) + real (digits_value fp) / 10 ^ length fp)
          else None)"

definition decimal_float :: "string \<Rightarrow> real option" where
  "decimal_float t =
     (case t of
        [] \<Rightarrow> None
      | c # cs \<Rightarrow>
          if c = CHR ''-'' then map_option uminus (unsigned_decimal cs)
          else if c = CHR ''+'' then unsigned_decimal cs
          else unsigned_decimal t)"

subsection \<open>Runs\<close>

text \<open>
  Both programs work on the same file, so a run is any sequence of calls of the
  functions that write to it, and of the page's ``Add Expense'' button. A call that
  raises, or that stops at a message, leaves the database as it was.
\<close>

datatype action =
    Add_v2 string form
  | Delete_v2 "expense option"
  | Add_v3 string string real string
  | Add_button_v3 string string real string
  | Delete_v3 int

fun step :: "(string \<Rightarrow> real option) \<Rightarrow> action \<Rightarrow> db \<Rightarrow> db" where
  "step float (Add_v2 today f) s =
     (case add_expense_v2 float today f s of Inl e \<Rightarrow> s | Inr (n, f', s') \<Rightarrow> s')"
| "step float (Delete_v2 selected) s = snd (delete_expense_v2 selected s)"
| "step float (Add_v3 today desc amt cat) s =
     (case add_expense_v3 today desc amt cat s of Inl e \<Rightarrow> s | Inr s' \<Rightarrow> s')"
| "step float (Add_button_v3 today desc amt cat) s =
     (case add_expense_button today desc amt cat s of Inl e \<Rightarrow> s | Inr (n, s') \<Rightarrow> s')"
| "step float (Delete_v3 i) s = delete_expense_v3 i s"

fun is_delete :: "action \<Rightarrow> bool" where
  "is_delete (Delete_v2 selected) = True"
| "is_delete (Delete_v3 i) = True"
| "is_delete a = False"

definition run :: "(string \<Rightarrow> real option) \<Rightarrow> action list \<Rightarrow> db \<Rightarrow> db" where
  "run float acts s = fold (step float) acts s"

text \<open>
  The ids a run assigns, in the order it assigns them: a step that leaves the table
  longer has appended one row, and assigned the id of that row.
\<close>

fun assigned_ids :: "(string \<Rightarrow> real option) \<Rightarrow> action list \<Rightarrow> db \<Rightarrow> int list" where
  "assigned_ids float [] s = []"
| "assigned_ids float (a # acts) s =
     (let s' = step float a s in
      (if length (rows s) < length (rows s') then [expense_id (last (rows s'))] else [])
        @ assigned_ids float acts s')"

text \<open>
  The shape of every database the programs produce from an empty one: ids ascend along
  the table, and none exceeds the recorded largest id.
\<close>

definition wf_db :: "db \<Rightarrow> bool" where
  "wf_db s \<longleftrightarrow>
     sorted_wrt (<) (map expense_id (rows s)) \<and>
     list_all (\<lambda>r. expense_id r \<le> sqlite_sequence s) (rows s)"

section \<open>Properties of the category suggestion\<close>

lemma py_in_sublist: "py_in w s \<longleftrightarrow> sublist w s"
  by (induction s) (auto simp: sublist_Cons_right)

lemma suggest_category_v2_first_match:
  "suggest_category_v2 d = first_match keyword_groups_v2 (lower d)"
  by (simp add: suggest_category_v2_def keyword_groups_v2_def Let_def)

lemma suggest_category_v3_first_match:
  "suggest_category_v3 d = first_match keyword_groups_v3 (lower d)"
  by (simp add: suggest_category_v3_def keyword_groups_v3_def Let_def)

text \<open>
  Testing the lowered description for a lower-case word finds the word in any mix of
  upper and lower case: the description holds some text whose lowering is the word.
\<close>

lemma sublist_map_iff:
  "sublist w (map f d) \<longleftrightarrow> (\<exists>u. map f u = w \<and> sublist u d)"
proof
  assume "sublist w (map f d)"
  then obtain ps ss where "map f d = ps @ w @ ss" by (auto simp: sublist_def)
  then have "\<exists>us vs. d = us @ vs \<and> ps = map f us \<and> w @ ss = map f vs"
    by (simp add: map_eq_append_conv)
  then obtain us vs where d: "d = us @ vs" and vs: "w @ ss = map f vs" by blast
  from vs have "\<exists>u t. vs = u @ t \<and> w = map f u \<and> ss = map f t"
    by (simp add: append_eq_map_conv)
  then obtain u t where "vs = u @ t" "w = map f u" by blast
  with d have "map f u = w \<and> sublist u d" by (auto simp: sublist_def)
  then show "\<exists>u. map f u = w \<and> sublist u d" ..
next
  assume "\<exists>u. map f u = w \<and> sublist u d"
  then obtain u ps ss where "map f u = w" "d = ps @ u @ ss" by (auto simp: sublist_def)
  then have "map f d = map f ps @ w @ map f ss" by simp
  then show "sublist w (map f d)" unfolding sublist_def by blast
qed

lemma py_in_lower: "py_in w (lower d) \<longleftrightarrow> (\<exists>u. lower u = w \<and> sublist u d)"
  by (simp add: py_in_sublist lower_def sublist_map_iff)

text \<open>What walking a table in order gives.\<close>

lemma first_match_priority:
  "i < length G \<Longrightarrow> any_in (snd (G ! i)) s \<Longrightarrow> \<forall>j<i. \<not> any_in (snd (G ! j)) s \<Longrightarrow>
   first_match G s = fst (G ! i)"
proof (induction G s arbitrary: i rule: first_match.induct)
  case (1 desc)
  then show ?case by simp
next
  case (2 label ws groups desc)
  show ?case
  proof (cases i)
    case 0
    with 2 show ?thesis by simp
  next
    case (Suc k)
    with 2(3,4) have "\<not> any_in ws desc" by auto
    moreover have "first_match groups desc = fst (groups ! k)"
    proof (rule 2(1))
      show "\<not> any_in ws desc" by fact
      show "k < length groups" using 2(2) Suc by simp
      show "any_in (snd (groups ! k)) desc" using 2(3) Suc by simp
      show "\<forall>j<k. \<not> any_in (snd (groups ! j)) desc"
      proof (intro allI impI)
        fix j assume "j < k"
        then have "Suc j < i" using Suc by simp
        with 2(4) have "\<not> any_in (snd (((label, ws) # groups) ! Suc j)) desc" by blast
        then show "\<not> any_in (snd (groups ! j)) desc" by simp
      qed
    qed
    ultimately show ?thesis using Suc by simp
  qed
qed

lemma first_match_none:
  "\<forall>g\<in>set G. \<not> any_in (snd g) s \<Longrightarrow> first_match G s = ''Miscellaneous''"
  by (induction G s rule: first_match.induct) auto

text \<open>
  C1, as amended. Each program matches the lowered description against its own keyword
  table, by substring tests. The Food words are pizza, food, coffee, lunch, restaurant in
  \<^verbatim>\<open>expnctrackerv2.py\<close> and pizza, food, coffee, restaurant, snack in
  \<^verbatim>\<open>expnctrackerv3.py\<close>: a description gets Food exactly when it contains, in any
  letter case, one of the Food words of the program that is asked.
\<close>

theorem suggest_category_own_food_keywords:
  "suggest_category_v2 d = first_match keyword_groups_v2 (lower d) \<and>
   suggest_category_v3 d = first_match keyword_groups_v3 (lower d) \<and>
   (suggest_category_v2 d = ''Food'' \<longleftrightarrow>
      any_in [''pizza'', ''food'', ''coffee'', ''lunch'', ''restaurant''] (lower d)) \<and>
   (suggest_category_v3 d = ''Food'' \<longleftrightarrow>
      any_in [''pizza'', ''food'', ''coffee'', ''restaurant'', ''snack''] (lower d))"
proof -
  have "suggest_category_v2 d = ''Food'' \<longleftrightarrow>
      any_in [''pizza'', ''food'', ''coffee'', ''lunch'', ''restaurant''] (lower d)"
    by (simp add: suggest_category_v2_def Let_def)
  moreover have "suggest_category_v3 d = ''Food'' \<longleftrightarrow>
      any_in [''pizza'', ''food'', ''coffee'', ''restaurant'', ''snack''] (lower d)"
    by (simp add: suggest_category_v3_def Let_def)
  ultimately show ?thesis
    by (simp only: suggest_category_v2_first_match suggest_category_v3_first_match simp_thms)
qed

text \<open>The two words the programs do not share, each in the program that has it.\<close>

theorem suggest_category_own_food_keywords_witness:
  "suggest_category_v2 ''Team Lunch'' = ''Food'' \<and> suggest_category_v3 ''Evening snacks'' = ''Food''"
proof -
  have "any_in [''pizza'', ''food'', ''coffee'', ''lunch'', ''restaurant''] (lower ''Team Lunch'')"
    by code_simp
  moreover have "any_in [''pizza'', ''food'', ''coffee'', ''restaurant'', ''snack''] (lower ''Evening snacks'')"
    by code_simp
  ultimately show ?thesis
    using suggest_category_own_food_keywords [of "''Team Lunch''"]
      suggest_category_own_food_keywords [of "''Evening snacks''"]
    by blast
qed

text \<open>
  C1 as the specification words it, with six Food words for both programs, fails:
  ``Evening snacks'' contains snack and no word of another group, and
  \<^verbatim>\<open>expnctrackerv2.py\<close> answers Miscellaneous; ``Team Lunch'' contains lunch and no word
  of another group, and \<^verbatim>\<open>expnctrackerv3.py\<close> answers Miscellaneous.
\<close>

theorem spec_food_keywords_counterexample:
  "any_in spec_food_keywords (lower ''Evening snacks'') \<and>
   \<not> any_in (concat (map snd (tl keyword_groups_v2))) (lower ''Evening snacks'') \<and>
   suggest_category_v2 ''Evening snacks'' = ''Miscellaneous'' \<and>
   any_in spec_food_keywords (lower ''Team Lunch'') \<and>
   \<not> any_in (concat (map snd (tl keyword_groups_v3))) (lower ''Team Lunch'') \<and>
   suggest_category_v3 ''Team Lunch'' = ''Miscellaneous''"
  by code_simp

text \<open>
  C3, as amended. \<^verbatim>\<open>suggest_category\<close> is a function of the description alone. It
  tests the groups of the program that is asked, in the order Food, Travel, Bills,
  Health, Shopping, and answers the label of the first group one of whose words the
  description contains: a description with a word of some group of that program and
  no word of an earlier group of that program gets that group's label, and a
  description with none of that program's words, the empty one included, gets
  Miscellaneous.
\<close>

theorem suggest_category_priority:
  "map fst keyword_groups_v2 = [''Food'', ''Travel'', ''Bills'', ''Health'', ''Shopping''] \<and>
   map fst keyword_groups_v3 = [''Food'', ''Travel'', ''Bills'', ''Health'', ''Shopping''] \<and>
   (\<forall>i<length keyword_groups_v2.
      any_in (snd (keyword_groups_v2 ! i)) (lower d) \<and>
      (\<forall>j<i. \<not> any_in (snd (keyword_groups_v2 ! j)) (lower d)) \<longrightarrow>
      suggest_category_v2 d = fst (keyword_groups_v2 ! i)) \<and>
   ((\<forall>g\<in>set keyword_groups_v2. \<not> any_in (snd g) (lower d)) \<longrightarrow>
      suggest_category_v2 d = ''Miscellaneous'') \<and>
   (\<forall>i<length keyword_groups_v3.
      any_in (snd (keyword_groups_v3 ! i)) (lower d) \<and>
      (\<forall>j<i. \<not> any_in (snd (keyword_groups_v3 ! j)) (lower d)) \<longrightarrow>
      suggest_category_v3 d = fst (keyword_groups_v3 ! i)) \<and>
   ((\<forall>g\<in>set keyword_groups_v3. \<not> any_in (snd g) (lower d)) \<longrightarrow>
      suggest_category_v3 d = ''Miscellaneous'') \<and>
   suggest_category_v2 [] = ''Miscellaneous'' \<and>
   suggest_category_v3 [] = ''Miscellaneous''"
proof -
  have l2: "map fst keyword_groups_v2 = [''Food'', ''Travel'', ''Bills'', ''Health'', ''Shopping'']"
    by (simp add: keyword_groups_v2_def)
  have l3: "map fst keyword_groups_v3 = [''Food'', ''Travel'', ''Bills'', ''Health'', ''Shopping'']"
    by (simp add: keyword_groups_v3_def)
  have p2: "\<forall>i<length keyword_groups_v2.
      any_in (snd (keyword_groups_v2 ! i)) (lower d) \<and>
      (\<forall>j<i. \<not> any_in (snd (keyword_groups_v2 ! j)) (lower d)) \<longrightarrow>
      suggest_category_v2 d = fst (keyword_groups_v2 ! i)"
    by (simp only: suggest_category_v2_first_match) (blast intro: first_match_priority)
  have p3: "\<forall>i<length keyword_groups_v3.
      any_in (snd (keyword_groups_v3 ! i)) (lower d) \<and>
      (\<forall>j<i. \<not> any_in (snd (keyword_groups_v3 ! j)) (lower d)) \<longrightarrow>
      suggest_category_v3 d = fst (keyword_groups_v3 ! i)"
    by (simp only: suggest_category_v3_first_match) (blast intro: first_match_priority)
  have n2: "(\<forall>g\<in>set keyword_groups_v2. \<not> any_in (snd g) (lower d)) \<longrightarrow>
      suggest_category_v2 d = ''Miscellaneous''"
    by (simp only: suggest_category_v2_first_match) (blast intro: first_match_none)
  have n3: "(\<forall>g\<in>set keyword_groups_v3. \<not> any_in (snd g) (lower d)) \<longrightarrow>
      suggest_category_v3 d = ''Miscellaneous''"
    by (simp only: suggest_category_v3_first_match) (blast intro: first_match_none)
  have e2: "suggest_category_v2 [] = ''Miscellaneous''" by code_simp
  have e3: "suggest_category_v3 [] = ''Miscellaneous''" by code_simp
  from l2 l3 p2 n2 p3 n3 e2 e3 show ?thesis by blast
qed

text \<open>
  ``Rent a cab'' has a Bills word and a Travel word, and Travel is tested first;
  ``Doctor at the mall'' has a Shopping word and a Health word, and Health is tested first.
\<close>

theorem suggest_category_priority_witness:
  "suggest_category_v2 ''Rent a cab'' = ''Travel'' \<and>
   suggest_category_v3 ''Doctor at the mall'' = ''Health'' \<and>
   suggest_category_v2 ''xyz'' = ''Miscellaneous'' \<and>
   suggest_category_v3 ''xyz'' = ''Miscellaneous''"
proof -
  have a: "(1::nat) < length keyword_groups_v2 \<and>
      any_in (snd (keyword_groups_v2 ! 1)) (lower ''Rent a cab'') \<and>
      (\<forall>j<1. \<not> any_in (snd (keyword_groups_v2 ! j)) (lower ''Rent a cab''))"
    by (simp add: keyword_groups_v2_def any_in_def lower_def lower_char_def)
  have b: "(3::nat) < length keyword_groups_v3 \<and>
      any_in (snd (keyword_groups_v3 ! 3)) (lower ''Doctor at the mall'') \<and>
      (\<forall>j<3. \<not> any_in (snd (keyword_groups_v3 ! j)) (lower ''Doctor at the mall''))"
    by (simp add: keyword_groups_v3_def any_in_def lower_def lower_char_def less_Suc_eq numeral_3_eq_3)
  have c: "\<forall>g\<in>set keyword_groups_v2. \<not> any_in (snd g) (lower ''xyz'')"
    by (simp add: keyword_groups_v2_def any_in_def lower_def lower_char_def)
  have d: "\<forall>g\<in>set keyword_groups_v3. \<not> any_in (snd g) (lower ''xyz'')"
    by (simp add: keyword_groups_v3_def any_in_def lower_def lower_char_def)
  have "suggest_category_v2 ''Rent a cab'' = fst (keyword_groups_v2 ! 1)"
    using suggest_category_priority [of "''Rent a cab''"] a by blast
  moreover have "suggest_category_v3 ''Doctor at the mall'' = fst (keyword_groups_v3 ! 3)"
    using suggest_category_priority [of "''Doctor at the mall''"] b by blast
  moreover have "suggest_category_v2 ''xyz'' = ''Miscellaneous''"
    using suggest_category_priority [of "''xyz''"] c by blast
  moreover have "suggest_category_v3 ''xyz'' = ''Miscellaneous''"
    using suggest_category_priority [of "''xyz''"] d by blast
  ultimately show ?thesis
    by (simp add: keyword_groups_v2_def keyword_groups_v3_def)
qed

text \<open>
  C3 as the specification words it, over the specification's keyword table, fails.
  ``snack on the bus'' has the Food word snack of that table, and no group comes before
  Food, yet \<^verbatim>\<open>expnctrackerv2.py\<close> answers Travel. ``Team lunch, then rent'' has the
  Food word lunch, yet \<^verbatim>\<open>expnctrackerv3.py\<close> answers Bills.
\<close>

theorem spec_priority_counterexample:
  "fst (spec_keyword_groups ! 0) = ''Food'' \<and>
   any_in (snd (spec_keyword_groups ! 0)) (lower ''snack on the bus'') \<and>
   first_match spec_keyword_groups (lower ''snack on the bus'') = ''Food'' \<and>
   suggest_category_v2 ''snack on the bus'' = ''Travel'' \<and>
   any_in (snd (spec_keyword_groups ! 0)) (lower ''Team lunch, then rent'') \<and>
   first_match spec_keyword_groups (lower ''Team lunch, then rent'') = ''Food'' \<and>
   suggest_category_v3 ''Team lunch, then rent'' = ''Bills''"
  by code_simp

section \<open>Properties of the expenses table\<close>

subsection \<open>Largest ids and sorting\<close>

lemma fold_max_ge: "(a::int) \<le> fold max xs a"
  by (induction xs arbitrary: a) (auto intro: order_trans[OF max.cobounded2])

lemma fold_max_mem: "x \<in> set xs \<Longrightarrow> (x::int) \<le> fold max xs a"
proof (induction xs arbitrary: a)
  case Nil
  then show ?case by simp
next
  case (Cons y ys)
  show ?case
  proof (cases "x = y")
    case True
    have "max y a \<le> fold max ys (max y a)" by (rule fold_max_ge)
    with True show ?thesis by simp
  next
    case False
    with Cons show ?thesis by simp
  qed
qed

lemma fold_max_absorb: "\<forall>x\<in>set xs. x \<le> a \<Longrightarrow> fold max xs (a::int) = a"
  by (induction xs) (auto simp: max_absorb2)

lemma largest_rowid_seq: "sqlite_sequence s \<le> largest_rowid s"
  by (simp add: largest_rowid_def fold_max_ge)

lemma largest_rowid_rows: "r \<in> set (rows s) \<Longrightarrow> expense_id r \<le> largest_rowid s"
  by (simp add: largest_rowid_def fold_max_mem)

lemma init_db_not_full: "largest_rowid init_db < max_rowid"
  by (simp add: largest_rowid_def init_db_def max_rowid_def)

lemma insort_key_snoc:
  "f y \<le> f x \<Longrightarrow> insort_key f y (zs @ [x]) = insort_key f y zs @ [x]"
  by (induction zs) auto

lemma sort_key_snoc:
  "\<forall>y\<in>set xs. f y \<le> f x \<Longrightarrow> sort_key f (xs @ [x]) = sort_key f xs @ [x]"
  by (induction xs) (auto simp: insort_key_snoc)

lemma select_all_desc_mset: "mset (select_all_desc s) = mset (rows s)"
  by (simp add: select_all_desc_def)

lemma select_all_desc_set: "set (select_all_desc s) = set (rows s)"
  by (simp add: select_all_desc_def)

lemma select_all_desc_snoc:
  assumes "rows t = rows s @ [x]" and "\<forall>r\<in>set (rows s). expense_id r \<le> expense_id x"
  shows "select_all_desc t = x # select_all_desc s"
  using assms by (simp add: select_all_desc_def sort_key_snoc)

lemma select_all_desc_sorted:
  "sorted_wrt (\<lambda>a b. expense_id b \<le> expense_id a) (select_all_desc s)"
proof -
  have "sorted (map expense_id (sort_key expense_id (rows s)))" by simp
  then have "sorted_wrt (\<lambda>a b. expense_id a \<le> expense_id b) (sort_key expense_id (rows s))"
    by (simp add: sorted_wrt_map)
  then show ?thesis by (simp add: select_all_desc_def sorted_wrt_rev)
qed

lemma sql_insert_ok:
  "largest_rowid s < max_rowid \<Longrightarrow>
   sql_insert d desc amt cat s =
     Inr \<lparr>rows = rows s @
            [\<lparr>expense_id = largest_rowid s + 1, date = d, description = desc, amount = amt,
              category = cat\<rparr>],
          sqlite_sequence = largest_rowid s + 1\<rparr>"
  by (simp add: sql_insert_def Let_def)

lemma sql_insert_full:
  "max_rowid \<le> largest_rowid s \<Longrightarrow> sql_insert d desc amt cat s = Inl SQLITE_FULL"
  by (simp add: sql_insert_def Let_def)

lemma sql_insert_rows:
  assumes "sql_insert d desc amt cat s = Inr s'"
  shows "\<exists>new. rows s' = rows s @ [new] \<and> expense_id new = largest_rowid s + 1 \<and>
           sqlite_sequence s' = largest_rowid s + 1"
  using assms by (auto simp: sql_insert_def Let_def split: if_splits)

subsection \<open>Well-formed databases and steps\<close>

lemma wf_db_init: "wf_db init_db"
  by (simp add: wf_db_def init_db_def)

lemma wf_db_largest: "wf_db s \<Longrightarrow> largest_rowid s = sqlite_sequence s"
  by (simp add: wf_db_def largest_rowid_def fold_max_absorb list_all_iff)

lemma wf_db_insert:
  assumes "wf_db s" and "sql_insert d desc amt cat s = Inr s'"
  shows "wf_db s'"
proof -
  have m: "largest_rowid s = sqlite_sequence s" using assms(1) by (rule wf_db_largest)
  from assms(2) have s': "s' = \<lparr>rows = rows s @
      [\<lparr>expense_id = sqlite_sequence s + 1, date = d, description = desc, amount = amt,
        category = cat\<rparr>], sqlite_sequence = sqlite_sequence s + 1\<rparr>"
    by (auto simp: sql_insert_def Let_def m split: if_splits)
  from assms(1) have a: "sorted_wrt (<) (map expense_id (rows s))"
    and b: "\<forall>r\<in>set (rows s). expense_id r \<le> sqlite_sequence s"
    by (simp_all add: wf_db_def list_all_iff)
  from b have c: "\<forall>r\<in>set (rows s). expense_id r < sqlite_sequence s + 1" by auto
  from b have e: "\<forall>r\<in>set (rows s). expense_id r \<le> sqlite_sequence s + 1" by auto
  show ?thesis
    unfolding wf_db_def s' using a c e by (simp add: sorted_wrt_append list_all_iff)
qed

lemma wf_db_delete: "wf_db s \<Longrightarrow> wf_db (sql_delete i s)"
  by (simp add: wf_db_def sql_delete_def sorted_wrt_map sorted_wrt_filter list_all_iff)

lemma step_cases:
  "step float a s = s \<or>
   (is_delete a \<and> (\<exists>i. step float a s = sql_delete i s)) \<or>
   (\<not> is_delete a \<and>
    (\<exists>d desc amt cat. sql_insert d desc amt cat s = Inr (step float a s)))"
proof (cases a)
  case (Add_v2 today f)
  then show ?thesis
    by (auto simp: add_expense_v2_def Let_def split: option.splits sum.splits)
next
  case (Delete_v2 selected)
  then show ?thesis by (auto simp: delete_expense_v2_def split: option.splits)
next
  case (Add_v3 today desc amt cat)
  then show ?thesis by (auto simp: add_expense_v3_def split: sum.splits)
next
  case (Add_button_v3 today desc amt cat)
  then show ?thesis
    by (auto simp: add_expense_button_def add_expense_v3_def split: sum.splits)
next
  case (Delete_v3 i)
  then show ?thesis by (auto simp: delete_expense_v3_def)
qed

lemma wf_db_step: "wf_db s \<Longrightarrow> wf_db (step float a s)"
  using step_cases [of float a s] by (auto intro: wf_db_insert wf_db_delete)

lemma wf_db_run: "wf_db s \<Longrightarrow> wf_db (run float acts s)"
  unfolding run_def by (induction acts arbitrary: s) (simp_all add: wf_db_step)

lemma step_grows:
  assumes "wf_db s" and "length (rows s) < length (rows (step float a s))"
  shows "expense_id (last (rows (step float a s))) = sqlite_sequence (step float a s) \<and>
         sqlite_sequence s < sqlite_sequence (step float a s)"
proof -
  have "length (rows (sql_delete i s)) \<le> length (rows s)" for i
    by (simp add: sql_delete_def)
  with step_cases [of float a s] assms(2)
  obtain d desc amt cat where "sql_insert d desc amt cat s = Inr (step float a s)"
    by (auto simp: not_less [symmetric])
  from sql_insert_rows [OF this] show ?thesis
    by (auto simp: wf_db_largest [OF assms(1)])
qed

lemma step_sequence_mono: "wf_db s \<Longrightarrow> sqlite_sequence s \<le> sqlite_sequence (step float a s)"
  using step_cases [of float a s]
  by (auto simp: sql_delete_def wf_db_largest dest!: sql_insert_rows)

lemma assigned_ids_above:
  "wf_db s \<Longrightarrow> \<forall>i\<in>set (assigned_ids float acts s). sqlite_sequence s < i"
proof (induction acts arbitrary: s)
  case Nil
  then show ?case by simp
next
  case (Cons a acts)
  let ?s' = "step float a s"
  have wf': "wf_db ?s'" using Cons.prems by (rule wf_db_step)
  have mono: "sqlite_sequence s \<le> sqlite_sequence ?s'" using Cons.prems by (rule step_sequence_mono)
  have rest: "\<forall>i\<in>set (assigned_ids float acts ?s'). sqlite_sequence s < i"
    using Cons.IH [OF wf'] mono by auto
  show ?case
  proof (cases "length (rows s) < length (rows ?s')")
    case True
    from step_grows [OF Cons.prems True] rest True show ?thesis by (simp add: Let_def)
  next
    case False
    with rest show ?thesis by (simp add: Let_def)
  qed
qed

lemma assigned_ids_sorted: "wf_db s \<Longrightarrow> sorted_wrt (<) (assigned_ids float acts s)"
proof (induction acts arbitrary: s)
  case Nil
  then show ?case by simp
next
  case (Cons a acts)
  let ?s' = "step float a s"
  have wf': "wf_db ?s'" using Cons.prems by (rule wf_db_step)
  have ih: "sorted_wrt (<) (assigned_ids float acts ?s')" using wf' by (rule Cons.IH)
  have above: "\<forall>i\<in>set (assigned_ids float acts ?s'). sqlite_sequence ?s' < i"
    using wf' by (rule assigned_ids_above)
  show ?case
  proof (cases "length (rows s) < length (rows ?s')")
    case True
    from step_grows [OF Cons.prems True] ih above True show ?thesis by (simp add: Let_def)
  next
    case False
    with ih show ?thesis by (simp add: Let_def)
  qed
qed

lemma select_all_desc_wf:
  assumes "wf_db s"
  shows "select_all_desc s = rev (rows s)"
proof -
  from assms have "sorted_wrt (<) (map expense_id (rows s))" by (simp add: wf_db_def)
  then have "sorted (map expense_id (rows s))" by (simp add: strict_sorted_iff)
  then have "sort_key expense_id (rows s) = rows s" by (rule sort_key_id_if_sorted)
  then show ?thesis by (simp add: select_all_desc_def)
qed

lemma example_run_rows:
  "rows (run decimal_float
     [Add_v3 ''2026-11-03'' ''Pizza night'' 450 ''Food'',
      Add_v2 ''2026-11-04'' \<lparr>desc_entry = ''Bus ticket'', amt_entry = ''30'', cat_entry = ''Travel''\<rparr>,
      Delete_v3 1,
      Add_button_v3 ''2026-11-04'' ''Snacks'' 20 ''Food''] init_db) =
   [\<lparr>expense_id = 2, date = ''2026-11-04'', description = ''Bus ticket'', amount = 30,
      category = ''Travel''\<rparr>,
    \<lparr>expense_id = 3, date = ''2026-11-04'', description = ''Snacks'', amount = 20,
      category = ''Food''\<rparr>]"
  by code_simp

subsection \<open>Adding an expense\<close>

text \<open>
  C2, as amended. \<^verbatim>\<open>add_expense\<close> of \<^verbatim>\<open>expnctrackerv2.py\<close> turns away an empty
  description, an empty amount, and an amount that \<^verbatim>\<open>float\<close> cannot read, each with
  a message, before any row is written: the fields and the table stay as they were.
  Every amount \<^verbatim>\<open>float\<close> can read goes on to the \<^verbatim>\<open>INSERT\<close>, whatever its sign.
  The ``Add Expense'' button of \<^verbatim>\<open>expnctrackerv3.py\<close> turns away an empty description
  and every amount that is not above 0, with a warning, and the table stays as it was.
\<close>

theorem add_expense_validation:
  "(desc_entry f = [] \<or> amt_entry f = [] \<longrightarrow>
      add_expense_v2 float today f s =
        Inr (Some (Warning ''Description and amount are required.''), f, s)) \<and>
   (desc_entry f \<noteq> [] \<and> amt_entry f \<noteq> [] \<and> float (amt_entry f) = None \<longrightarrow>
      add_expense_v2 float today f s = Inr (Some (Error ''Amount must be a number.''), f, s)) \<and>
   (desc_entry f = [] \<or> amt_entry f = [] \<or> float (amt_entry f) = None \<longrightarrow>
      get_all_expenses (step float (Add_v2 today f) s) = get_all_expenses s) \<and>
   (desc_entry f \<noteq> [] \<and> amt_entry f \<noteq> [] \<and> float (amt_entry f) = Some a \<longrightarrow>
      add_expense_v2 float today f s =
        (case sql_insert today (desc_entry f) a (cat_entry f) s of
           Inl e \<Rightarrow> Inl e
         | Inr s' \<Rightarrow>
             Inr (None,
                  \<lparr>desc_entry = [], amt_entry = [],
                   cat_entry = suggest_category_v2 (desc_entry f)\<rparr>,
                  s'))) \<and>
   (desc = [] \<or> amt \<le> 0 \<longrightarrow>
      add_expense_button today desc amt cat s =
        Inr (Warning ''Enter valid description and amount.'', s) \<and>
      get_all_expenses (step float (Add_button_v3 today desc amt cat) s) = get_all_expenses s)"
  by (auto simp: add_expense_v2_def add_expense_button_def Let_def)

text \<open>An empty description, a text that is no number, and the amount -5 in the page.\<close>

theorem add_expense_validation_witness:
  "add_expense_v2 decimal_float ''2026-11-03''
     \<lparr>desc_entry = [], amt_entry = ''12'', cat_entry = ''Food''\<rparr> init_db =
     Inr (Some (Warning ''Description and amount are required.''),
          \<lparr>desc_entry = [], amt_entry = ''12'', cat_entry = ''Food''\<rparr>, init_db) \<and>
   add_expense_v2 decimal_float ''2026-11-03''
     \<lparr>desc_entry = ''Tea'', amt_entry = ''abc'', cat_entry = ''Food''\<rparr> init_db =
     Inr (Some (Error ''Amount must be a number.''),
          \<lparr>desc_entry = ''Tea'', amt_entry = ''abc'', cat_entry = ''Food''\<rparr>, init_db) \<and>
   add_expense_button ''2026-11-03'' ''Tea'' (- 5) ''Food'' init_db =
     Inr (Warning ''Enter valid description and amount.'', init_db) \<and>
   add_expense_button ''2026-11-03'' [] 12 ''Food'' init_db =
     Inr (Warning ''Enter valid description and amount.'', init_db)"
proof -
  let ?f1 = "\<lparr>desc_entry = [], amt_entry = ''12'', cat_entry = ''Food''\<rparr>"
  let ?f2 = "\<lparr>desc_entry = ''Tea'', amt_entry = ''abc'', cat_entry = ''Food''\<rparr>"
  have "desc_entry ?f1 = []" by simp
  then have a: "add_expense_v2 decimal_float ''2026-11-03'' ?f1 init_db =
      Inr (Some (Warning ''Description and amount are required.''), ?f1, init_db)"
    using add_expense_validation [of ?f1 decimal_float "''2026-11-03''" init_db] by blast
  have p: "decimal_float ''abc'' = None" by code_simp
  have "desc_entry ?f2 \<noteq> [] \<and> amt_entry ?f2 \<noteq> [] \<and> decimal_float (amt_entry ?f2) = None"
    using p by simp
  then have b: "add_expense_v2 decimal_float ''2026-11-03'' ?f2 init_db =
      Inr (Some (Error ''Amount must be a number.''), ?f2, init_db)"
    using add_expense_validation [of ?f2 decimal_float "''2026-11-03''" init_db] by blast
  have "(- 5 :: real) \<le> 0" by simp
  then have c: "add_expense_button ''2026-11-03'' ''Tea'' (- 5) ''Food'' init_db =
      Inr (Warning ''Enter valid description and amount.'', init_db)"
    using add_expense_validation [where desc = "''Tea''" and amt = "- 5" and today = "''2026-11-03''"
        and cat = "''Food''" and s = init_db]
    by blast
  have d: "add_expense_button ''2026-11-03'' [] 12 ''Food'' init_db =
      Inr (Warning ''Enter valid description and amount.'', init_db)"
    using add_expense_validation [where desc = "[]" and amt = 12 and today = "''2026-11-03''"
        and cat = "''Food''" and s = init_db]
    by blast
  from a b c d show ?thesis by blast
qed

text \<open>
  C2 as the specification words it fails in \<^verbatim>\<open>expnctrackerv2.py\<close>: with the amount
  \<^verbatim>\<open>-5\<close> typed into the window, \<^verbatim>\<open>add_expense\<close> shows no message and writes a row
  whose amount is -5, and the list of all expenses has changed.
\<close>

theorem negative_amount_counterexample:
  "add_expense_v2 decimal_float ''2026-11-03''
     \<lparr>desc_entry = ''Refund'', amt_entry = ''-5'', cat_entry = ''Miscellaneous''\<rparr> init_db =
     Inr (None,
          \<lparr>desc_entry = [], amt_entry = [], cat_entry = ''Miscellaneous''\<rparr>,
          \<lparr>rows = [\<lparr>expense_id = 1, date = ''2026-11-03'', description = ''Refund'',
                     amount = - 5, category = ''Miscellaneous''\<rparr>],
           sqlite_sequence = 1\<rparr>) \<and>
   get_all_expenses (step decimal_float
     (Add_v2 ''2026-11-03''
        \<lparr>desc_entry = ''Refund'', amt_entry = ''-5'', cat_entry = ''Miscellaneous''\<rparr>) init_db)
     \<noteq> get_all_expenses init_db"
  by code_simp

text \<open>
  C4. As long as the table's ids are not used up, adding an expense and then listing
  all expenses gives the rows listed before with exactly one new row in front of them.
  The new row has the description, amount and category that were given and the current
  date, and its id is larger than every id in the table and than every id the table
  has held. This holds for \<^verbatim>\<open>add_expense\<close> of \<^verbatim>\<open>expnctrackerv3.py\<close> on any input,
  for the page's button on a non-empty description and an amount above 0, and for
  \<^verbatim>\<open>add_expense\<close> of \<^verbatim>\<open>expnctrackerv2.py\<close> on a non-empty description and an
  amount text that \<^verbatim>\<open>float\<close> reads.
\<close>

theorem add_then_list:
  assumes "largest_rowid s < max_rowid"
  shows "\<exists>new s'.
           add_expense_v3 today desc amt cat s = Inr s' \<and>
           get_all_expenses s' = new # get_all_expenses s \<and>
           date new = today \<and> description new = desc \<and> amount new = amt \<and>
           category new = cat \<and>
           (\<forall>r\<in>set (get_all_expenses s). expense_id r < expense_id new) \<and>
           sqlite_sequence s < expense_id new \<and>
           (desc \<noteq> [] \<and> 0 < amt \<longrightarrow>
              add_expense_button today desc amt cat s =
                Inr (Success ''Expense added successfully!'', s')) \<and>
           (desc \<noteq> [] \<and> amt_text \<noteq> [] \<and> float amt_text = Some amt \<longrightarrow>
              add_expense_v2 float today
                \<lparr>desc_entry = desc, amt_entry = amt_text, cat_entry = cat\<rparr> s =
                Inr (None,
                     \<lparr>desc_entry = [], amt_entry = [], cat_entry = suggest_category_v2 desc\<rparr>,
                     s') \<and>
              fst (refresh_table sum_agg s') = new # fst (refresh_table sum_agg s))"
proof -
  define new where "new = \<lparr>expense_id = largest_rowid s + 1, date = today, description = desc,
    amount = amt, category = cat\<rparr>"
  define s' where "s' = \<lparr>rows = rows s @ [new], sqlite_sequence = largest_rowid s + 1\<rparr>"
  have ins: "sql_insert today desc amt cat s = Inr s'"
    using assms by (simp add: sql_insert_ok s'_def new_def)
  have le: "\<forall>r\<in>set (rows s). expense_id r \<le> expense_id new"
  proof
    fix r assume "r \<in> set (rows s)"
    then have "expense_id r \<le> largest_rowid s" by (rule largest_rowid_rows)
    then show "expense_id r \<le> expense_id new" by (simp add: new_def)
  qed
  have "rows s' = rows s @ [new]" by (simp add: s'_def)
  then have sel: "select_all_desc s' = new # select_all_desc s"
    using le by (rule select_all_desc_snoc)
  have lt: "\<forall>r\<in>set (get_all_expenses s). expense_id r < expense_id new"
  proof
    fix r assume "r \<in> set (get_all_expenses s)"
    then have "r \<in> set (rows s)" by (simp add: get_all_expenses_def select_all_desc_set)
    then have "expense_id r \<le> largest_rowid s" by (rule largest_rowid_rows)
    then show "expense_id r < expense_id new" by (simp add: new_def)
  qed
  have sq: "sqlite_sequence s < expense_id new"
    using largest_rowid_seq [of s] by (simp add: new_def)
  have "add_expense_v3 today desc amt cat s = Inr s'"
    by (simp add: add_expense_v3_def ins)
  moreover have "get_all_expenses s' = new # get_all_expenses s"
    by (simp add: get_all_expenses_def sel)
  moreover have "date new = today \<and> description new = desc \<and> amount new = amt \<and> category new = cat"
    by (simp add: new_def)
  moreover have "desc \<noteq> [] \<and> 0 < amt \<longrightarrow>
      add_expense_button today desc amt cat s = Inr (Success ''Expense added successfully!'', s')"
    by (simp add: add_expense_button_def add_expense_v3_def ins)
  moreover have "desc \<noteq> [] \<and> amt_text \<noteq> [] \<and> float amt_text = Some amt \<longrightarrow>
      add_expense_v2 float today \<lparr>desc_entry = desc, amt_entry = amt_text, cat_entry = cat\<rparr> s =
        Inr (None, \<lparr>desc_entry = [], amt_entry = [], cat_entry = suggest_category_v2 desc\<rparr>, s') \<and>
      fst (refresh_table sum_agg s') = new # fst (refresh_table sum_agg s)"
    by (simp add: add_expense_v2_def Let_def ins refresh_table_def sel)
  ultimately show ?thesis using lt sq by blast
qed

text \<open>The first expense of an empty database, added through each of the three.\<close>

theorem add_then_list_witness:
  "\<exists>new s'.
     add_expense_v3 ''2026-11-03'' ''Pizza night'' 450 ''Food'' init_db = Inr s' \<and>
     get_all_expenses s' = [new] \<and>
     date new = ''2026-11-03'' \<and> description new = ''Pizza night'' \<and> amount new = 450 \<and>
     category new = ''Food'' \<and>
     add_expense_button ''2026-11-03'' ''Pizza night'' 450 ''Food'' init_db =
       Inr (Success ''Expense added successfully!'', s') \<and>
     add_expense_v2 decimal_float ''2026-11-03''
       \<lparr>desc_entry = ''Pizza night'', amt_entry = ''450.0'', cat_entry = ''Food''\<rparr> init_db =
       Inr (None, \<lparr>desc_entry = [], amt_entry = [], cat_entry = ''Food''\<rparr>, s')"
proof -
  have f: "decimal_float ''450.0'' = Some 450" by code_simp
  have e: "get_all_expenses init_db = []"
    by (simp add: get_all_expenses_def select_all_desc_def init_db_def)
  have g: "suggest_category_v2 ''Pizza night'' = ''Food''" by code_simp
  from add_then_list [OF init_db_not_full, where today = "''2026-11-03''"
      and desc = "''Pizza night''" and amt = 450 and cat = "''Food''"
      and amt_text = "''450.0''" and float = decimal_float
      and sum_agg = "\<lambda>xs. Some (sum_list xs)"]
  obtain new s' where
    "add_expense_v3 ''2026-11-03'' ''Pizza night'' 450 ''Food'' init_db = Inr s'"
    "get_all_expenses s' = new # get_all_expenses init_db"
    "date new = ''2026-11-03''" "description new = ''Pizza night''" "amount new = 450"
    "category new = ''Food''"
    "add_expense_button ''2026-11-03'' ''Pizza night'' 450 ''Food'' init_db =
       Inr (Success ''Expense added successfully!'', s')"
    "add_expense_v2 decimal_float ''2026-11-03''
       \<lparr>desc_entry = ''Pizza night'', amt_entry = ''450.0'', cat_entry = ''Food''\<rparr> init_db =
       Inr (None, \<lparr>desc_entry = [], amt_entry = [], cat_entry = suggest_category_v2 ''Pizza night''\<rparr>, s')"
    using f by auto
  then show ?thesis using e g by auto
qed

subsection \<open>Listing\<close>

text \<open>
  C7. For every database, listing all expenses returns every row of the table exactly
  once, ordered by id descending; the window's list shows the same rows in the same
  order. In a well-formed database, which the empty one is and which every run keeps,
  the ids descend strictly and the list is the table read backwards: the row added
  last comes first.
\<close>

theorem list_all_newest_first:
  "mset (get_all_expenses s) = mset (rows s) \<and>
   sorted_wrt (\<lambda>a b. expense_id b \<le> expense_id a) (get_all_expenses s) \<and>
   fst (refresh_table sum_agg s) = get_all_expenses s \<and>
   (wf_db s \<longrightarrow>
      distinct (get_all_expenses s) \<and>
      sorted_wrt (\<lambda>a b. expense_id b < expense_id a) (get_all_expenses s) \<and>
      get_all_expenses s = rev (rows s)) \<and>
   (wf_db s \<longrightarrow> wf_db (run float acts s))"
proof -
  have m: "mset (get_all_expenses s) = mset (rows s)"
    by (simp add: get_all_expenses_def select_all_desc_mset)
  have o: "sorted_wrt (\<lambda>a b. expense_id b \<le> expense_id a) (get_all_expenses s)"
    by (simp add: get_all_expenses_def select_all_desc_sorted)
  have v: "fst (refresh_table sum_agg s) = get_all_expenses s"
    by (simp add: refresh_table_def get_all_expenses_def)
  have w: "distinct (get_all_expenses s) \<and>
      sorted_wrt (\<lambda>a b. expense_id b < expense_id a) (get_all_expenses s) \<and>
      get_all_expenses s = rev (rows s)" if wf: "wf_db s"
  proof -
    from wf have r: "get_all_expenses s = rev (rows s)"
      by (simp add: get_all_expenses_def select_all_desc_wf)
    from wf have st: "sorted_wrt (<) (map expense_id (rows s))" by (simp add: wf_db_def)
    then have "distinct (map expense_id (rows s))" by (simp add: strict_sorted_iff)
    then have d: "distinct (rows s)" by (simp add: distinct_map)
    from st have "sorted_wrt (\<lambda>a b. expense_id a < expense_id b) (rows s)"
      by (simp add: sorted_wrt_map)
    then have "sorted_wrt (\<lambda>a b. expense_id b < expense_id a) (rev (rows s))"
      by (simp add: sorted_wrt_rev)
    with r d show ?thesis by simp
  qed
  have x: "wf_db s \<longrightarrow> wf_db (run float acts s)" by (simp add: wf_db_run)
  from m o v w x show ?thesis by blast
qed

text \<open>After the example run the row added last, with id 3, is listed first.\<close>

theorem list_all_newest_first_witness:
  "get_all_expenses (run decimal_float
     [Add_v3 ''2026-11-03'' ''Pizza night'' 450 ''Food'',
      Add_v2 ''2026-11-04'' \<lparr>desc_entry = ''Bus ticket'', amt_entry = ''30'', cat_entry = ''Travel''\<rparr>,
      Delete_v3 1,
      Add_button_v3 ''2026-11-04'' ''Snacks'' 20 ''Food''] init_db) =
   [\<lparr>expense_id = 3, date = ''2026-11-04'', description = ''Snacks'', amount = 20,
      category = ''Food''\<rparr>,
    \<lparr>expense_id = 2, date = ''2026-11-04'', description = ''Bus ticket'', amount = 30,
      category = ''Travel''\<rparr>]"
proof -
  let ?acts = "[Add_v3 ''2026-11-03'' ''Pizza night'' 450 ''Food'',
      Add_v2 ''2026-11-04'' \<lparr>desc_entry = ''Bus ticket'', amt_entry = ''30'', cat_entry = ''Travel''\<rparr>,
      Delete_v3 1,
      Add_button_v3 ''2026-11-04'' ''Snacks'' 20 ''Food'']"
  have "wf_db (run decimal_float ?acts init_db)"
    using list_all_newest_first [where s = init_db and float = decimal_float and acts = ?acts]
      wf_db_init
    by blast
  then have "get_all_expenses (run decimal_float ?acts init_db) =
      rev (rows (run decimal_float ?acts init_db))"
    using list_all_newest_first [where s = "run decimal_float ?acts init_db"] by blast
  then show ?thesis by (simp only: example_run_rows) simp
qed

subsection \<open>Deleting\<close>

text \<open>
  C8, as amended. \<^verbatim>\<open>delete_expense\<close> removes the row with the given id if there is
  one, and leaves the database as it is when there is none; it never raises. Calling
  it a second time with the same id leaves the database exactly as the first call left
  it. It returns nothing and shows nothing, whether or not a row was removed.
\<close>

theorem delete_idempotent:
  "delete_expense_v3 i (delete_expense_v3 i s) = delete_expense_v3 i s \<and>
   i \<notin> expense_id ` set (rows (delete_expense_v3 i s)) \<and>
   (i \<notin> expense_id ` set (rows s) \<longrightarrow> delete_expense_v3 i s = s) \<and>
   delete_expense_v2 (Some item) s = (None, delete_expense_v3 (expense_id item) s) \<and>
   delete_expense_v2 (Some item) (snd (delete_expense_v2 (Some item) s)) =
     (None, snd (delete_expense_v2 (Some item) s))"
proof -
  have a: "delete_expense_v3 j (delete_expense_v3 j t) = delete_expense_v3 j t" for j t
    by (simp add: delete_expense_v3_def sql_delete_def)
  have b: "i \<notin> expense_id ` set (rows (delete_expense_v3 i s))"
    by (auto simp: delete_expense_v3_def sql_delete_def)
  have c: "i \<notin> expense_id ` set (rows s) \<longrightarrow> delete_expense_v3 i s = s"
  proof
    assume "i \<notin> expense_id ` set (rows s)"
    then have "filter (\<lambda>r. expense_id r \<noteq> i) (rows s) = rows s"
      by (auto simp: filter_id_conv)
    then show "delete_expense_v3 i s = s" by (simp add: delete_expense_v3_def sql_delete_def)
  qed
  have d: "delete_expense_v2 (Some it) t = (None, delete_expense_v3 (expense_id it) t)" for it t
    by (simp add: delete_expense_v2_def delete_expense_v3_def)
  from a b c d show ?thesis by simp
qed

text \<open>An id the table does not hold, and the same id deleted twice.\<close>

theorem delete_idempotent_witness:
  "delete_expense_v3 7 init_db = init_db \<and>
   delete_expense_v3 1 (delete_expense_v3 1
     \<lparr>rows = [\<lparr>expense_id = 1, date = ''2026-11-03'', description = ''Pizza night'',
                amount = 450, category = ''Food''\<rparr>], sqlite_sequence = 1\<rparr>) =
   delete_expense_v3 1
     \<lparr>rows = [\<lparr>expense_id = 1, date = ''2026-11-03'', description = ''Pizza night'',
                amount = 450, category = ''Food''\<rparr>], sqlite_sequence = 1\<rparr>"
proof -
  have "7 \<notin> expense_id ` set (rows init_db)" by (simp add: init_db_def)
  then have "delete_expense_v3 7 init_db = init_db"
    using delete_idempotent [of 7 init_db] by blast
  then show ?thesis
    using delete_idempotent [of 1 "\<lparr>rows = [\<lparr>expense_id = 1, date = ''2026-11-03'',
      description = ''Pizza night'', amount = 450, category = ''Food''\<rparr>],
      sqlite_sequence = 1\<rparr>"] by blast
qed

text \<open>
  C8 as the specification words it has the second call report that nothing was
  removed. The programs give no such report: the call that removes row 1 and the
  call that finds no row 1 both come back with no message.
\<close>

theorem delete_reports_nothing_counterexample:
  "delete_expense_v2
     (Some \<lparr>expense_id = 1, date = ''2026-11-03'', description = ''Pizza night'',
            amount = 450, category = ''Food''\<rparr>)
     \<lparr>rows = [\<lparr>expense_id = 1, date = ''2026-11-03'', description = ''Pizza night'',
                amount = 450, category = ''Food''\<rparr>], sqlite_sequence = 1\<rparr> =
     (None, \<lparr>rows = [], sqlite_sequence = 1\<rparr>) \<and>
   delete_expense_v2
     (Some \<lparr>expense_id = 1, date = ''2026-11-03'', description = ''Pizza night'',
            amount = 450, category = ''Food''\<rparr>)
     \<lparr>rows = [], sqlite_sequence = 1\<rparr> =
     (None, \<lparr>rows = [], sqlite_sequence = 1\<rparr>)"
  by (simp add: delete_expense_v2_def sql_delete_def)

text \<open>
  C10. \<^verbatim>\<open>delete_expense\<close> keeps every row whose id differs from the given one, as it
  is and in its place. A step that is not a delete keeps the whole table and at most
  appends to it. After any step, every row of the table is a row that was there before,
  with all its fields, or a row with an id that was not in use.
\<close>

theorem delete_frame:
  "rows (delete_expense_v3 i s) = filter (\<lambda>r. expense_id r \<noteq> i) (rows s) \<and>
   (\<forall>r\<in>set (rows s). expense_id r \<noteq> i \<longrightarrow> r \<in> set (rows (delete_expense_v3 i s))) \<and>
   snd (delete_expense_v2 (Some item) s) = delete_expense_v3 (expense_id item) s \<and>
   snd (delete_expense_v2 None s) = s \<and>
   (\<not> is_delete a \<longrightarrow> prefix (rows s) (rows (step float a s))) \<and>
   (\<forall>r\<in>set (rows (step float a s)). r \<in> set (rows s) \<or> largest_rowid s < expense_id r)"
proof -
  have a: "rows (delete_expense_v3 i s) = filter (\<lambda>r. expense_id r \<noteq> i) (rows s)"
    by (simp add: delete_expense_v3_def sql_delete_def)
  have b: "snd (delete_expense_v2 (Some item) s) = delete_expense_v3 (expense_id item) s"
    by (simp add: delete_expense_v2_def delete_expense_v3_def)
  have c: "snd (delete_expense_v2 None s) = s" by (simp add: delete_expense_v2_def)
  have d: "\<not> is_delete a \<longrightarrow> prefix (rows s) (rows (step float a s))"
    using step_cases [of float a s] by (auto dest!: sql_insert_rows)
  have e: "\<forall>r\<in>set (rows (step float a s)). r \<in> set (rows s) \<or> largest_rowid s < expense_id r"
    using step_cases [of float a s] by (auto simp: sql_delete_def dest!: sql_insert_rows)
  from a b c d e show ?thesis by simp
qed

text \<open>Deleting row 2 keeps row 1; adding to the empty table keeps the empty table.\<close>

theorem delete_frame_witness:
  "\<lparr>expense_id = 1, date = ''2026-11-03'', description = ''Pizza night'', amount = 450,
     category = ''Food''\<rparr> \<in>
   set (rows (delete_expense_v3 2
     \<lparr>rows = [\<lparr>expense_id = 1, date = ''2026-11-03'', description = ''Pizza night'',
                amount = 450, category = ''Food''\<rparr>,
              \<lparr>expense_id = 2, date = ''2026-11-04'', description = ''Bus ticket'',
                amount = 30, category = ''Travel''\<rparr>],
      sqlite_sequence = 2\<rparr>)) \<and>
   prefix (rows init_db)
     (rows (step decimal_float (Add_v3 ''2026-11-03'' ''Pizza night'' 450 ''Food'') init_db))"
proof -
  let ?r1 = "\<lparr>expense_id = 1, date = ''2026-11-03'', description = ''Pizza night'',
    amount = 450, category = ''Food''\<rparr>"
  let ?s = "\<lparr>rows = [?r1,
              \<lparr>expense_id = 2, date = ''2026-11-04'', description = ''Bus ticket'',
                amount = 30, category = ''Travel''\<rparr>],
      sqlite_sequence = 2\<rparr>"
  have "?r1 \<in> set (rows ?s)" and "expense_id ?r1 \<noteq> 2" by simp_all
  then have a: "?r1 \<in> set (rows (delete_expense_v3 2 ?s))"
    using delete_frame [of 2 ?s] by blast
  have "\<not> is_delete (Add_v3 ''2026-11-03'' ''Pizza night'' 450 ''Food'')" by simp
  then have "prefix (rows init_db)
     (rows (step decimal_float (Add_v3 ''2026-11-03'' ''Pizza night'' 450 ''Food'') init_db))"
    using delete_frame [of _ init_db _ "Add_v3 ''2026-11-03'' ''Pizza night'' 450 ''Food''" decimal_float]
    by blast
  with a show ?thesis by blast
qed

subsection \<open>Ids\<close>

text \<open>
  C9. Over any run from a well-formed database, the ids the table assigns are strictly
  increasing in the order they are assigned, each is larger than every id the table held
  at the start and than the largest id it had ever held, so no id is assigned twice,
  also after its row is deleted; and the ids of the rows in the table are pairwise
  distinct throughout.
\<close>

theorem ids_increase_never_reused:
  assumes "wf_db s"
  shows "sorted_wrt (<) (assigned_ids float acts s) \<and>
         (\<forall>i\<in>set (assigned_ids float acts s).
            sqlite_sequence s < i \<and> (\<forall>r\<in>set (rows s). expense_id r < i)) \<and>
         distinct (map expense_id (rows (run float acts s))) \<and>
         wf_db (run float acts s)"
proof -
  have a: "sorted_wrt (<) (assigned_ids float acts s)" using assms by (rule assigned_ids_sorted)
  have b: "\<forall>i\<in>set (assigned_ids float acts s). sqlite_sequence s < i"
    using assms by (rule assigned_ids_above)
  have c: "\<forall>r\<in>set (rows s). expense_id r \<le> sqlite_sequence s"
    using assms by (simp add: wf_db_def list_all_iff)
  have d: "wf_db (run float acts s)" using assms by (rule wf_db_run)
  then have "sorted_wrt (<) (map expense_id (rows (run float acts s)))" by (simp add: wf_db_def)
  then have e: "distinct (map expense_id (rows (run float acts s)))"
    by (simp add: strict_sorted_iff)
  from b c have "\<forall>i\<in>set (assigned_ids float acts s).
            sqlite_sequence s < i \<and> (\<forall>r\<in>set (rows s). expense_id r < i)"
    by force
  with a d e show ?thesis by blast
qed

text \<open>After ids 1 and 2 are assigned and row 2 is deleted, the next id is 3, not 2.\<close>

theorem ids_increase_never_reused_witness:
  "assigned_ids decimal_float
     [Add_v3 ''2026-11-03'' ''Pizza night'' 450 ''Food'',
      Add_v2 ''2026-11-04'' \<lparr>desc_entry = ''Bus ticket'', amt_entry = ''30'', cat_entry = ''Travel''\<rparr>,
      Delete_v3 2,
      Add_button_v3 ''2026-11-04'' ''Snacks'' 20 ''Food''] init_db = [1, 2, 3] \<and>
   sorted_wrt (<) (assigned_ids decimal_float
     [Add_v3 ''2026-11-03'' ''Pizza night'' 450 ''Food'',
      Add_v2 ''2026-11-04'' \<lparr>desc_entry = ''Bus ticket'', amt_entry = ''30'', cat_entry = ''Travel''\<rparr>,
      Delete_v3 2,
      Add_button_v3 ''2026-11-04'' ''Snacks'' 20 ''Food''] init_db)"
proof -
  let ?acts = "[Add_v3 ''2026-11-03'' ''Pizza night'' 450 ''Food'',
      Add_v2 ''2026-11-04'' \<lparr>desc_entry = ''Bus ticket'', amt_entry = ''30'', cat_entry = ''Travel''\<rparr>,
      Delete_v3 2,
      Add_button_v3 ''2026-11-04'' ''Snacks'' 20 ''Food'']"
  have a: "assigned_ids decimal_float ?acts init_db = [1, 2, 3]" by code_simp
  have "sorted_wrt (<) (assigned_ids decimal_float ?acts init_db)"
    using ids_increase_never_reused [OF wf_db_init, of decimal_float ?acts] by blast
  with a show ?thesis by blast
qed

end
